theory Spec2Isabelle
  imports Complex_Main "HOL-Library.Log_Nat" "HOL-Library.Multiset"
begin

section \<open>Text primitives\<close>

text \<open>
  Python strings are sequences of code points. The model covers texts over the code
  points U+0000 to U+00FF, one \<^typ>\<open>char\<close> per code point.
\<close>

definition isspace :: "char \<Rightarrow> bool" where
  \<comment> \<open>\<open>str.isspace\<close>, also the class \<open>\s\<close> of \<open>re\<close> on \<open>str\<close> patterns.\<close>
  "isspace c = (let n = (of_char c :: nat) in
     (9 \<le> n \<and> n \<le> 13) \<or> (28 \<le> n \<and> n \<le> 32) \<or> n = 133 \<or> n = 160)"

definition isdigit :: "char \<Rightarrow> bool" where
  \<comment> \<open>The class \<open>\d\<close>: the decimal digits below U+0100 are \<open>0\<close> to \<open>9\<close>.\<close>
  "isdigit c = (let n = (of_char c :: nat) in 48 \<le> n \<and> n \<le> 57)"

definition strip :: "string \<Rightarrow> string" where
  "strip s = rev (dropWhile isspace (rev (dropWhile isspace s)))"

definition upper_char :: "char \<Rightarrow> string" where
  \<comment> \<open>\<open>str.upper\<close> on one code point. U+00DF becomes \<open>SS\<close>; U+00B5 and U+00FF have
      their upper case beyond U+00FF and are kept (no label contains them or their images).\<close>
  "upper_char c = (let n = (of_char c :: nat) in
     if 97 \<le> n \<and> n \<le> 122 then [char_of (n - 32)]
     else if n = 223 then ''SS''
     else if 224 \<le> n \<and> n \<le> 254 \<and> n \<noteq> 247 then [char_of (n - 32)]
     else [c])"

definition upper :: "string \<Rightarrow> string" where
  "upper s = concat (map upper_char s)"

fun contains :: "string \<Rightarrow> string \<Rightarrow> bool" where
  \<comment> \<open>\<open>contains sub s\<close> is Python's \<open>sub in s\<close>.\<close>
  "contains sub [] = (sub = [])"
| "contains sub (c # s) = (take (length sub) (c # s) = sub \<or> contains sub s)"

section \<open>Clusters and parsing\<close>

definition CLUSTERS :: "string list" where
  "CLUSTERS = [''TEXAS'', ''SKY'', ''ALX'']"

definition extract_cluster :: "string \<Rightarrow> string option" where
  "extract_cluster txt = (let up = upper txt in find (\<lambda>c. contains c up) CLUSTERS)"

subsection \<open>The amount pattern\<close>

text \<open>
  \<^verbatim>\<open>AMOUNT_RE = re.compile(r"(?:(?:USD|\$)\s*)?([\d\s.,]+)\s*(?:USD|\$)?", re.I)\<close>

  The group is a greedy run of digits, white space, points and commas. With a currency
  marker in front, \<open>\s*\<close> first takes the white space that follows the marker, and gives
  one character back when the run holds nothing else. After the group, \<open>\s*\<close> is always
  empty and a marker that follows is consumed.
\<close>

definition amount_class :: "char \<Rightarrow> bool" where
  "amount_class c = (isdigit c \<or> isspace c \<or> c = CHR ''.'' \<or> c = CHR '','')"

definition marker_len :: "string \<Rightarrow> nat" where
  \<comment> \<open>Length of \<open>(?:USD|\$)\<close> matched at the front under \<open>re.I\<close>, \<open>0\<close> when it fails.\<close>
  "marker_len s = (if take 1 s = ''$'' then 1
     else (case s of
             a # b # c # _ \<Rightarrow>
               if a \<in> set ''Uu'' \<and> b \<in> set ''Ss'' \<and> c \<in> set ''Dd'' then 3 else 0
           | _ \<Rightarrow> 0))"

definition match_at :: "string \<Rightarrow> (string \<times> string) option" where
  \<comment> \<open>One match attempt at the front of \<open>s\<close>: group 1 and the text after the match.\<close>
  "match_at s = (let k = marker_len s in
     if 0 < k then
       (let t = drop k s; w = takeWhile amount_class t; r = dropWhile amount_class t;
            g = dropWhile isspace w
        in if w = [] then None
           else Some (if g = [] then [last w] else g, drop (marker_len r) r))
     else
       (let w = takeWhile amount_class s; r = dropWhile amount_class s
        in if w = [] then None else Some (w, drop (marker_len r) r)))"

lemma match_at_shorter:
  assumes "match_at s = Some (g, rest)"
  shows "length rest < length s"
proof -
  have tw: "\<And>t. takeWhile amount_class t \<noteq> [] \<Longrightarrow>
              length (dropWhile amount_class t) < length t"
  proof -
    fix t :: string
    assume ne: "takeWhile amount_class t \<noteq> []"
    have "length (takeWhile amount_class t) + length (dropWhile amount_class t) = length t"
      by (metis length_append takeWhile_dropWhile_id)
    moreover have "0 < length (takeWhile amount_class t)" using ne by simp
    ultimately show "length (dropWhile amount_class t) < length t" by linarith
  qed
  show ?thesis
  proof (cases "0 < marker_len s")
    case True
    let ?t = "drop (marker_len s) s"
    from assms True have ne: "takeWhile amount_class ?t \<noteq> []"
      and r: "rest = drop (marker_len (dropWhile amount_class ?t)) (dropWhile amount_class ?t)"
      by (auto simp: match_at_def Let_def split: if_splits)
    from tw[OF ne] have "length (dropWhile amount_class ?t) < length ?t" .
    with r show ?thesis by simp
  next
    case False
    from assms False have ne: "takeWhile amount_class s \<noteq> []"
      and r: "rest = drop (marker_len (dropWhile amount_class s)) (dropWhile amount_class s)"
      by (auto simp: match_at_def Let_def split: if_splits)
    from tw[OF ne] r show ?thesis by simp
  qed
qed

function findall :: "string \<Rightarrow> string list" where
  \<comment> \<open>\<open>AMOUNT_RE.findall\<close>: group 1 of the non-overlapping matches, left to right.\<close>
  "findall [] = []"
| "findall (c # s) = (case match_at (c # s) of
       None \<Rightarrow> findall s
     | Some (g, rest) \<Rightarrow> g # findall rest)"
  by pat_completeness auto
termination
  by (relation "measure length") (auto dest: match_at_shorter)

declare findall.simps [simp del]

subsection \<open>Amount normalisation\<close>

datatype error =
    InvalidOperation  \<comment> \<open>\<open>decimal.InvalidOperation\<close>, raised by \<open>Decimal(s)\<close> at line 44\<close>
  | TypeError  \<comment> \<open>raised at line 76, see \<open>ingest\<close> below\<close>

definition digit_val :: "char \<Rightarrow> nat" where
  "digit_val c = of_char c - 48"

definition digits_val :: "string \<Rightarrow> nat" where
  "digits_val ds = foldl (\<lambda>a c. 10 * a + digit_val c) 0 ds"

definition Decimal :: "string \<Rightarrow> error + rat" where
  \<comment> \<open>\<open>Decimal(s)\<close> for the strings this program builds: characters of the amount class
      only. White space around the numeral is stripped; what is left must be digits with at
      most one point and at least one digit.\<close>
  "Decimal txt = (let s = strip txt; ip = takeWhile isdigit s in
     case dropWhile isdigit s of
       [] \<Rightarrow> if ip = [] then Inl InvalidOperation else Inr (of_nat (digits_val ip))
     | d # fp \<Rightarrow>
         if d = CHR ''.'' \<and> list_all isdigit fp \<and> (ip \<noteq> [] \<or> fp \<noteq> [])
         then Inr (of_nat (digits_val (ip @ fp)) / 10 ^ length fp)
         else Inl InvalidOperation)"

definition replace_char :: "char \<Rightarrow> string \<Rightarrow> string \<Rightarrow> string" where
  \<comment> \<open>\<open>s.replace(c, new)\<close> for a one-character pattern.\<close>
  "replace_char c new s = concat (map (\<lambda>x. if x = c then new else [x]) s)"

definition norm_amount :: "string \<Rightarrow> error + rat" where
  \<comment> \<open>\<open>_norm_amount\<close>. U+202F is not a code point of the model, so the first
      \<open>replace\<close> of the source changes nothing here.\<close>
  "norm_amount txt = (let
       s = replace_char (CHR '' '') [] txt;
       s = (if count_list s (CHR '','') = 1 \<and> count_list s (CHR ''.'') = 0
            then replace_char (CHR '','') ''.'' s else s);
       s = (if count_list s (CHR '','') > 1 \<and> count_list s (CHR ''.'') = 0
            then replace_char (CHR '','') [] s else s)
     in Decimal s)"

section \<open>The table \<open>spends\<close> and the handler \<open>ingest\<close>\<close>

datatype double = Fin rat | PInf | NInf
  \<comment> \<open>A value of a \<open>REAL\<close> column: an IEEE 754 binary64 number, by its exact value.\<close>

record spend_row =
  chat_id :: int
  message_id :: int
  ymd :: string
  cluster :: string
  amount :: double

type_synonym spends = "spend_row list"
  \<comment> \<open>The table in \<open>id\<close> order; the \<open>AUTOINCREMENT\<close> key is the position.\<close>

record message =
  msg_chat_id :: int
  msg_message_id :: int
  msg_text :: "string option"
  msg_caption :: "string option"
  msg_date :: int  \<comment> \<open>when the message was sent (seconds); \<open>ingest\<close> never reads it\<close>

record local_time =
  \<comment> \<open>\<open>dt.datetime.now().astimezone()\<close>: the clock at handling time, in the local zone.\<close>
  lt_year :: nat
  lt_month :: nat
  lt_day :: nat

fun zero_pad :: "nat \<Rightarrow> nat \<Rightarrow> string" where
  "zero_pad 0 n = []"
| "zero_pad (Suc w) n = zero_pad w (n div 10) @ [char_of (48 + n mod 10)]"

definition strftime_ymd :: "local_time \<Rightarrow> string" where
  \<comment> \<open>\<open>strftime("%Y-%m-%d")\<close>\<close>
  "strftime_ymd t = zero_pad 4 (lt_year t) @ ''-'' @ zero_pad 2 (lt_month t) @ ''-'' @ zero_pad 2 (lt_day t)"

datatype outcome =
    FilteredOrigin  \<comment> \<open>\<open>return\<close> of line 57\<close>
  | FilteredEmpty  \<comment> \<open>line 60\<close>
  | FilteredNoCluster  \<comment> \<open>line 64\<close>
  | FilteredNoAmount  \<comment> \<open>line 68\<close>
  | FilteredNonPositive  \<comment> \<open>line 71\<close>
  | Duplicate  \<comment> \<open>line 80\<close>
  | Stored  \<comment> \<open>the end of the body, after the \<open>INSERT\<close>\<close>

definition effective_text :: "message \<Rightarrow> string" where
  \<comment> \<open>\<open>(msg.text or msg.caption or "").strip()\<close>\<close>
  "effective_text m = strip
     (case msg_text m of
        Some t \<Rightarrow> if t \<noteq> [] then t
                  else (case msg_caption m of Some c \<Rightarrow> c | None \<Rightarrow> [])
      | None \<Rightarrow> (case msg_caption m of Some c \<Rightarrow> c | None \<Rightarrow> []))"

fun norm_each :: "string list \<Rightarrow> error + rat list" where
  \<comment> \<open>The generator \<open>(_norm_amount(m) for m in matches)\<close> as \<open>max\<close> consumes it: the first
      failure raises.\<close>
  "norm_each [] = Inr []"
| "norm_each (m # ms) =
     (case norm_amount m of
        Inl e \<Rightarrow> Inl e
      | Inr d \<Rightarrow> (case norm_each ms of Inl e \<Rightarrow> Inl e | Inr ds \<Rightarrow> Inr (d # ds)))"

definition max_default :: "rat list \<Rightarrow> rat \<Rightarrow> rat" where
  \<comment> \<open>\<open>max(iterable, default=d)\<close>\<close>
  "max_default ds d = (case ds of [] \<Rightarrow> d | x # xs \<Rightarrow> fold max xs x)"

record insert_params =
  \<comment> \<open>The values lines 73 to 83 hold for the \<open>INSERT\<close>: \<open>:chat\<close>, \<open>:mid\<close>, \<open>:ymd\<close>,
      \<open>:cluster\<close> and the \<open>Decimal\<close> \<open>amount\<close>.\<close>
  p_chat :: int
  p_mid :: int
  p_ymd :: string
  p_cluster :: string
  p_amount :: rat

definition ingest_fields ::
  "int \<Rightarrow> local_time \<Rightarrow> message \<Rightarrow> error + (outcome + insert_params)" where
  \<comment> \<open>Lines 55 to 73 of \<open>ingest\<close>: either an exception, an early \<open>return\<close>, or the values
      with which line 74 is reached.\<close>
  "ingest_fields SOURCE_CHAT_ID now msg =
    (if msg_chat_id msg \<noteq> SOURCE_CHAT_ID then Inr (Inl FilteredOrigin)
     else let txt = effective_text msg in
       if txt = [] then Inr (Inl FilteredEmpty)
       else case extract_cluster txt of
         None \<Rightarrow> Inr (Inl FilteredNoCluster)
       | Some c \<Rightarrow>
          (let matches = findall txt in
           if matches = [] then Inr (Inl FilteredNoAmount)
           else case norm_each matches of
             Inl e \<Rightarrow> Inl e
           | Inr ds \<Rightarrow>
              (let amt = max_default ds 0 in
               if amt \<le> 0 then Inr (Inl FilteredNonPositive)
               else Inr (Inr \<lparr>p_chat = msg_chat_id msg, p_mid = msg_message_id msg,
                               p_ymd = strftime_ymd now, p_cluster = c, p_amount = amt\<rparr>))))"

text \<open>
  Line 58 assigns \<open>text = (msg.text or msg.caption or "").strip()\<close>. An assignment makes
  the name local to the whole body of \<open>ingest\<close>, so at line 76 \<open>text("SELECT 1 ...")\<close>
  calls that \<open>str\<close>, not \<open>sqlalchemy.text\<close>: Python raises
  \<open>TypeError: 'str' object is not callable\<close> while it evaluates the arguments of the first
  \<open>conn.execute\<close>. No statement has reached the database, and \<open>engine.begin()\<close> rolls
  the empty transaction back. Every call that gets past line 71 ends this way.
\<close>

definition ingest ::
  "int \<Rightarrow> local_time \<Rightarrow> message \<Rightarrow> spends \<Rightarrow> (error + outcome) \<times> spends" where
  "ingest SOURCE_CHAT_ID now msg db =
    (case ingest_fields SOURCE_CHAT_ID now msg of
       Inl e \<Rightarrow> (Inl e, db)
     | Inr (Inl out) \<Rightarrow> (Inr out, db)
     | Inr (Inr p) \<Rightarrow> (Inl TypeError, db))"

section \<open>Binary64 arithmetic\<close>

text \<open>
  \<open>REAL\<close> values are IEEE 754 binary64 numbers: 53 significant bits, the least exponent of
  a unit in the last place is \<open>-1074\<close>, and a result of magnitude \<open>2^1024\<close> or more after
  rounding is an infinity. Rounding is to nearest, ties to even.
\<close>

definition ilog2 :: "rat \<Rightarrow> int" where
  \<comment> \<open>For \<open>0 < q\<close>, the exponent \<open>e\<close> with \<open>2^e \<le> q < 2^(e+1)\<close>.\<close>
  "ilog2 q = (if 1 \<le> q then bitlen \<lfloor>q\<rfloor> - 1 else - bitlen (\<lceil>1 / q\<rceil> - 1))"

definition round_half_even :: "rat \<Rightarrow> int" where
  "round_half_even x = (let f = \<lfloor>x\<rfloor>; r = x - of_int f in
     if r < 1 / 2 then f else if 1 / 2 < r then f + 1 else if even f then f else f + 1)"

definition round_pos :: "rat \<Rightarrow> double" where
  \<comment> \<open>The binary64 number nearest to \<open>q\<close>, for \<open>0 < q\<close>.\<close>
  "round_pos q = (let p = max (ilog2 q - 52) (- 1074);
                      r = of_int (round_half_even (q / power_int 2 p)) * power_int 2 p
                  in if 2 ^ 1024 \<le> r then PInf else Fin r)"

definition dneg :: "double \<Rightarrow> double" where
  "dneg d = (case d of Fin r \<Rightarrow> Fin (- r) | PInf \<Rightarrow> NInf | NInf \<Rightarrow> PInf)"

definition to_double :: "rat \<Rightarrow> double" where
  "to_double q = (if q = 0 then Fin 0 else if 0 < q then round_pos q else dneg (round_pos (- q)))"

definition fadd :: "double \<Rightarrow> double \<Rightarrow> double option" where
  \<comment> \<open>Binary64 addition; \<open>None\<close> is NaN.\<close>
  "fadd x y = (case x of
       Fin a \<Rightarrow> (case y of Fin b \<Rightarrow> Some (to_double (a + b)) | PInf \<Rightarrow> Some PInf | NInf \<Rightarrow> Some NInf)
     | PInf \<Rightarrow> (case y of NInf \<Rightarrow> None | _ \<Rightarrow> Some PInf)
     | NInf \<Rightarrow> (case y of PInf \<Rightarrow> None | _ \<Rightarrow> Some NInf))"

section \<open>The queries of \<open>summarize_day\<close>\<close>

text \<open>
  Both queries run in SQLite. \<open>SUM\<close> over a \<open>REAL\<close> column adds the rows to a binary64
  accumulator that starts at \<open>0.0\<close>, here in table order; over no rows it is \<open>NULL\<close>, and a
  NaN result is returned as \<open>NULL\<close> too. \<open>ROUND(x, 2)\<close> is the binary64 number nearest to
  \<open>x\<close> rounded to two decimal places, and keeps \<open>NULL\<close> and the infinities. \<open>NULL\<close> is
  \<open>None\<close>.
\<close>

definition sql_sum :: "double list \<Rightarrow> double option" where
  "sql_sum xs = (if xs = [] then None
     else fold (\<lambda>x acc. case acc of None \<Rightarrow> None | Some s \<Rightarrow> fadd s x) xs (Some (Fin 0)))"

definition round_half_away :: "rat \<Rightarrow> int" where
  "round_half_away x = (if 0 \<le> x then \<lfloor>x + 1 / 2\<rfloor> else - \<lfloor>- x + 1 / 2\<rfloor>)"

definition sql_round2 :: "double option \<Rightarrow> double option" where
  "sql_round2 v = (case v of
       Some (Fin q) \<Rightarrow> Some (to_double (of_int (round_half_away (q * 100)) / 100))
     | other \<Rightarrow> other)"

record summary_row =
  \<comment> \<open>A row of the first query: \<open>cluster\<close>, \<open>total\<close>, \<open>n\<close>.\<close>
  s_cluster :: string
  s_total :: "double option"
  s_n :: nat

definition day_rows :: "spends \<Rightarrow> string \<Rightarrow> spends" where
  \<comment> \<open>\<open>FROM spends WHERE ymd=:ymd\<close>\<close>
  "day_rows db d = filter (\<lambda>r. ymd r = d) db"

definition cluster_groups :: "spends \<Rightarrow> string \<Rightarrow> summary_row list" where
  \<comment> \<open>\<open>SELECT cluster, ROUND(SUM(amount),2) AS total, COUNT(*) as n ... GROUP BY cluster\<close>,
      before the rows are ordered.\<close>
  "cluster_groups db d = map
     (\<lambda>c. \<lparr>s_cluster = c,
           s_total = sql_round2 (sql_sum (map amount (filter (\<lambda>r. cluster r = c) (day_rows db d)))),
           s_n = length (filter (\<lambda>r. cluster r = c) (day_rows db d))\<rparr>)
     (remdups (map cluster (day_rows db d)))"

definition total_ge :: "double option \<Rightarrow> double option \<Rightarrow> bool" where
  \<comment> \<open>\<open>total_ge a b\<close>: under \<open>ORDER BY total DESC\<close> a row with total \<open>a\<close> may come before
      one with total \<open>b\<close>. \<open>NULL\<close> is below every number.\<close>
  "total_ge a b = (case b of
       None \<Rightarrow> True
     | Some NInf \<Rightarrow> a \<noteq> None
     | Some (Fin y) \<Rightarrow> (case a of Some (Fin x) \<Rightarrow> y \<le> x | Some PInf \<Rightarrow> True | _ \<Rightarrow> False)
     | Some PInf \<Rightarrow> a = Some PInf)"

definition summarize_day_rows :: "spends \<Rightarrow> string \<Rightarrow> summary_row list \<Rightarrow> bool" where
  \<comment> \<open>\<open>rows\<close> is a result of the first query: the groups, in an order that
      \<open>ORDER BY total DESC\<close> allows. The query names no other sort key.\<close>
  "summarize_day_rows db d rows =
     (mset rows = mset (cluster_groups db d)
      \<and> sorted_wrt (\<lambda>a b. total_ge (s_total a) (s_total b)) rows)"

definition summarize_day_total :: "spends \<Rightarrow> string \<Rightarrow> double" where
  \<comment> \<open>\<open>SELECT ROUND(SUM(amount),2) FROM spends WHERE ymd=:ymd\<close>, then \<open>or 0.0\<close>.\<close>
  "summarize_day_total db d = (case sql_round2 (sql_sum (map amount (day_rows db d))) of
       None \<Rightarrow> Fin 0
     | Some t \<Rightarrow> t)"

section \<open>The database block of \<open>ingest\<close>\<close>

text \<open>
  Lines 74 to 83, which no call reaches. Read with \<open>text\<close> as \<open>sqlalchemy.text\<close>, the
  block looks for a row with the chat and message identifiers of the message, returns when
  there is one, and otherwise inserts a row whose amount is \<open>float(amount)\<close>, the binary64
  number nearest to the decimal amount.
\<close>

definition insert_if_absent :: "insert_params \<Rightarrow> spends \<Rightarrow> outcome \<times> spends" where
  "insert_if_absent p db =
    (if list_ex (\<lambda>r. chat_id r = p_chat p \<and> message_id r = p_mid p) db then (Duplicate, db)
     else (Stored, db @ [\<lparr>chat_id = p_chat p, message_id = p_mid p, ymd = p_ymd p,
                           cluster = p_cluster p, amount = to_double (p_amount p)\<rparr>]))"

section \<open>Concrete inputs\<close>

definition msg_sky_500 :: message where
  "msg_sky_500 = \<lparr>msg_chat_id = 7, msg_message_id = 1, msg_text = Some ''SKY 500'',
                   msg_caption = None, msg_date = 0\<rparr>"

definition msg_texas_spend :: message where
  "msg_texas_spend = \<lparr>msg_chat_id = 7, msg_message_id = 2,
     msg_text = Some ''TEXAS spend $1,200.50'', msg_caption = None, msg_date = 0\<rparr>"

definition clock0 :: local_time where
  "clock0 = \<lparr>lt_year = 2024, lt_month = 3, lt_day = 9\<rparr>"

definition msg_other_chat :: message where
  "msg_other_chat = \<lparr>msg_chat_id = 8, msg_message_id = 3, msg_text = Some ''SKY 500'',
                      msg_caption = None, msg_date = 0\<rparr>"

definition msg_blank :: message where
  "msg_blank = \<lparr>msg_chat_id = 7, msg_message_id = 4, msg_text = Some ''  '',
                 msg_caption = None, msg_date = 0\<rparr>"

definition msg_no_cluster :: message where
  "msg_no_cluster = \<lparr>msg_chat_id = 7, msg_message_id = 5, msg_text = Some ''lunch 5'',
                      msg_caption = None, msg_date = 0\<rparr>"

definition msg_no_amount :: message where
  "msg_no_amount = \<lparr>msg_chat_id = 7, msg_message_id = 6, msg_text = None,
                     msg_caption = Some ''SKY'', msg_date = 0\<rparr>"

definition msg_zero :: message where
  "msg_zero = \<lparr>msg_chat_id = 7, msg_message_id = 7, msg_text = Some ''SKY 0'',
                msg_caption = None, msg_date = 0\<rparr>"

definition db_one_row :: spends where
  "db_one_row = [\<lparr>chat_id = 7, message_id = 1, ymd = ''2024-03-09'', cluster = ''SKY'',
                  amount = Fin 500\<rparr>]"



definition db_small_parts :: spends where
  "db_small_parts =
     [\<lparr>chat_id = 7, message_id = 1, ymd = ''2024-03-09'', cluster = ''SKY'', amount = Fin (1 / 256)\<rparr>,
      \<lparr>chat_id = 7, message_id = 2, ymd = ''2024-03-09'', cluster = ''ALX'', amount = Fin (1 / 256)\<rparr>]"

definition db_large :: spends where
  "db_large =
     [\<lparr>chat_id = 7, message_id = 1, ymd = ''2024-03-09'', cluster = ''SKY'',
       amount = Fin 9007199254740992\<rparr>,
      \<lparr>chat_id = 7, message_id = 2, ymd = ''2024-03-09'', cluster = ''SKY'', amount = Fin 1\<rparr>]"

definition db_tie :: spends where
  "db_tie =
     [\<lparr>chat_id = 7, message_id = 1, ymd = ''2024-03-09'', cluster = ''TEXAS'', amount = Fin 100\<rparr>,
      \<lparr>chat_id = 7, message_id = 2, ymd = ''2024-03-09'', cluster = ''ALX'', amount = Fin 100\<rparr>]"

definition db_three :: spends where
  \<comment> \<open>The table after \<open>SKY 500\<close>, \<open>SKY 300\<close> and \<open>ALX 100\<close> of one day.\<close>
  "db_three =
     [\<lparr>chat_id = 7, message_id = 1, ymd = ''2024-03-09'', cluster = ''SKY'', amount = Fin 500\<rparr>,
      \<lparr>chat_id = 7, message_id = 2, ymd = ''2024-03-09'', cluster = ''SKY'', amount = Fin 300\<rparr>,
      \<lparr>chat_id = 7, message_id = 3, ymd = ''2024-03-09'', cluster = ''ALX'', amount = Fin 100\<rparr>]"

fun label_less :: "string \<Rightarrow> string \<Rightarrow> bool" where
  \<comment> \<open>Cluster labels in ascending order: code point by code point.\<close>
  "label_less [] [] = False"
| "label_less [] (y # ys) = True"
| "label_less (x # xs) [] = False"
| "label_less (x # xs) (y # ys) =
     ((of_char x :: nat) < of_char y \<or> (x = y \<and> label_less xs ys))"

definition spec_order :: "summary_row list \<Rightarrow> bool" where
  \<comment> \<open>The order the specification states for \<open>aggregate_by_cluster\<close>: total descending,
      ties broken by cluster label ascending.\<close>
  "spec_order rows = sorted_wrt
     (\<lambda>a b. (total_ge (s_total a) (s_total b) \<and> \<not> total_ge (s_total b) (s_total a))
          \<or> (s_total a = s_total b \<and> label_less (s_cluster a) (s_cluster b))) rows"

definition whole_of :: "spend_row \<Rightarrow> nat" where
  \<comment> \<open>The amount of a row as a whole number, for rows whose amount is one.\<close>
  "whole_of r = (case amount r of Fin q \<Rightarrow> nat \<lfloor>q\<rfloor> | _ \<Rightarrow> 0)"

section \<open>Evaluation of the parsing functions\<close>

lemmas decimal_eval = norm_amount_def replace_char_def Decimal_def strip_def isspace_def
  isdigit_def digits_val_def digit_val_def

lemma text_sky_500: "effective_text msg_sky_500 = ''SKY 500''"
  by (simp add: effective_text_def msg_sky_500_def strip_def isspace_def)

lemma cluster_sky_500: "extract_cluster ''SKY 500'' = Some ''SKY''"
  by code_simp

lemma findall_sky_500: "findall ''SKY 500'' = ['' 500'']"
  by code_simp

lemma norm_500: "norm_amount '' 500'' = Inr 500"
  by (simp add: decimal_eval)

lemma ymd_clock0: "strftime_ymd clock0 = ''2024-03-09''"
  by code_simp

lemma fields_sky_500:
  "ingest_fields 7 clock0 msg_sky_500 =
     Inr (Inr \<lparr>p_chat = 7, p_mid = 1, p_ymd = ''2024-03-09'', p_cluster = ''SKY'', p_amount = 500\<rparr>)"
  by (simp add: ingest_fields_def text_sky_500 cluster_sky_500 findall_sky_500 norm_500
      max_default_def ymd_clock0) (simp add: msg_sky_500_def)

lemma text_texas: "effective_text msg_texas_spend = ''TEXAS spend $1,200.50''"
  by (simp add: effective_text_def msg_texas_spend_def strip_def isspace_def)

lemma cluster_texas: "extract_cluster ''TEXAS spend $1,200.50'' = Some ''TEXAS''"
  by code_simp

lemma findall_texas: "findall ''TEXAS spend $1,200.50'' = ['' '', '' '', ''1,200.50'']"
  by code_simp

lemma norm_blank: "norm_amount '' '' = Inl InvalidOperation"
  by (simp add: decimal_eval)

lemma fields_texas_spend:
  "ingest_fields 7 clock0 msg_texas_spend = Inl InvalidOperation"
  by (simp add: ingest_fields_def text_texas cluster_texas findall_texas norm_blank)
    (simp add: msg_texas_spend_def)

lemma upper_sky_texas: "upper ''sky before Texas'' = ''SKY BEFORE TEXAS''"
  by code_simp

lemma upper_alx_sky: "upper ''alx, Sky'' = ''ALX, SKY''"
  by code_simp

lemma upper_for_alx: "upper ''for alx'' = ''FOR ALX''"
  by code_simp

section \<open>The cluster tagger\<close>

text \<open>
  C10. \<open>extract_cluster\<close> tries the labels in the order of the tuple \<open>CLUSTERS\<close> against the
  upper-cased text, so when several labels occur the result is the one that comes first in
  \<open>TEXAS\<close>, \<open>SKY\<close>, \<open>ALX\<close>, wherever each of them stands in the text: \<open>TEXAS\<close> whenever
  it occurs, \<open>SKY\<close> when it occurs and \<open>TEXAS\<close> does not, \<open>ALX\<close> when it alone occurs.
\<close>

theorem extract_cluster_priority:
  "(contains ''TEXAS'' (upper t) \<longrightarrow> extract_cluster t = Some ''TEXAS'')
   \<and> (\<not> contains ''TEXAS'' (upper t) \<and> contains ''SKY'' (upper t)
        \<longrightarrow> extract_cluster t = Some ''SKY'')
   \<and> (\<not> contains ''TEXAS'' (upper t) \<and> \<not> contains ''SKY'' (upper t)
        \<and> contains ''ALX'' (upper t)
        \<longrightarrow> extract_cluster t = Some ''ALX'')"
  by (simp add: extract_cluster_def CLUSTERS_def Let_def)

theorem extract_cluster_priority_witness:
  "contains ''SKY'' (upper ''sky before Texas'') \<and> contains ''TEXAS'' (upper ''sky before Texas'')
   \<and> extract_cluster ''sky before Texas'' = Some ''TEXAS''
   \<and> contains ''ALX'' (upper ''alx, Sky'') \<and> contains ''SKY'' (upper ''alx, Sky'')
   \<and> extract_cluster ''alx, Sky'' = Some ''SKY''
   \<and> contains ''ALX'' (upper ''for alx'') \<and> extract_cluster ''for alx'' = Some ''ALX''"
proof -
  have a: "contains ''SKY'' (upper ''sky before Texas'')"
    "contains ''TEXAS'' (upper ''sky before Texas'')"
    by (simp_all add: upper_sky_texas)
  have b: "contains ''ALX'' (upper ''alx, Sky'')" "contains ''SKY'' (upper ''alx, Sky'')"
    "\<not> contains ''TEXAS'' (upper ''alx, Sky'')"
    by (simp_all add: upper_alx_sky)
  have c: "contains ''ALX'' (upper ''for alx'')" "\<not> contains ''SKY'' (upper ''for alx'')"
    "\<not> contains ''TEXAS'' (upper ''for alx'')"
    by (simp_all add: upper_for_alx)
  from a extract_cluster_priority [of "''sky before Texas''"]
  have "extract_cluster ''sky before Texas'' = Some ''TEXAS''" by blast
  moreover from b extract_cluster_priority [of "''alx, Sky''"]
  have "extract_cluster ''alx, Sky'' = Some ''SKY''" by blast
  moreover from c extract_cluster_priority [of "''for alx''"]
  have "extract_cluster ''for alx'' = Some ''ALX''" by blast
  ultimately show ?thesis using a b c by blast
qed

section \<open>The amount normaliser\<close>

text \<open>
  C2. \<open>_norm_amount\<close> on the four strings of the specification. \<open>"1234,56"\<close> is
  \<open>1234.56\<close> and \<open>"3 400"\<close> is \<open>3400\<close>. A string with both a comma and a point meets
  neither rewriting rule (each asks for no point), reaches \<open>Decimal\<close> with its comma, and
  raises \<open>InvalidOperation\<close>: so do \<open>"1.234,56"\<close> and \<open>"1,234.56"\<close>.
\<close>

theorem norm_amount_spec_examples:
  "norm_amount ''1234,56'' = Inr (123456 / 100)
   \<and> norm_amount ''3 400'' = Inr 3400
   \<and> norm_amount ''1.234,56'' = Inl InvalidOperation
   \<and> norm_amount ''1,234.56'' = Inl InvalidOperation"
  by (simp add: decimal_eval)

section \<open>The handler\<close>

lemma ingest_db_unchanged: "snd (ingest src now msg db) = db"
  by (simp add: ingest_def split: sum.splits)

text \<open>
  The block that the handler does not reach is a check and insert by key: on a table without
  the key it adds one row, and run again with the same key it adds nothing.
\<close>

lemma insert_if_absent_once:
  assumes "\<not> list_ex (\<lambda>r. chat_id r = p_chat p \<and> message_id r = p_mid p) db"
    and "p_chat q = p_chat p" and "p_mid q = p_mid p"
  shows "fst (insert_if_absent p db) = Stored"
    and "length (snd (insert_if_absent p db)) = length db + 1"
    and "insert_if_absent q (snd (insert_if_absent p db))
         = (Duplicate, snd (insert_if_absent p db))"
  using assms by (simp_all add: insert_if_absent_def)

text \<open>
  C1. A first call with the text \<open>SKY 500\<close>, from the source chat, on an empty table:
  the filters pass, and the handler raises \<open>TypeError\<close> at line 76 with no row inserted;
  a second call with the same message does the same. With the text
  \<open>TEXAS spend $1,200.50\<close> the pattern also matches each of the two blanks between the
  words, \<open>_norm_amount(" ")\<close> is \<open>Decimal("")\<close>, and the handler raises
  \<open>InvalidOperation\<close> at line 69.
\<close>

theorem ingest_first_call_raises:
  "ingest 7 clock0 msg_sky_500 [] = (Inl TypeError, [])
   \<and> ingest 7 clock0 msg_sky_500 (snd (ingest 7 clock0 msg_sky_500 [])) = (Inl TypeError, [])
   \<and> ingest 7 clock0 msg_texas_spend [] = (Inl InvalidOperation, [])"
  by (simp add: ingest_def fields_sky_500 fields_texas_spend)








lemma ingest_other_chat: "ingest 7 clock0 msg_other_chat db = (Inr FilteredOrigin, db)"
  by (simp add: ingest_def ingest_fields_def msg_other_chat_def)

lemma text_blank: "effective_text msg_blank = []"
  by (simp add: effective_text_def msg_blank_def strip_def isspace_def)

lemma ingest_blank: "ingest 7 clock0 msg_blank db = (Inr FilteredEmpty, db)"
  by (simp add: ingest_def ingest_fields_def text_blank) (simp add: msg_blank_def)

lemma text_no_cluster: "effective_text msg_no_cluster = ''lunch 5''"
  by (simp add: effective_text_def msg_no_cluster_def strip_def isspace_def)

lemma cluster_lunch: "extract_cluster ''lunch 5'' = None"
  by code_simp

lemma ingest_no_cluster: "ingest 7 clock0 msg_no_cluster db = (Inr FilteredNoCluster, db)"
  by (simp add: ingest_def ingest_fields_def text_no_cluster cluster_lunch)
    (simp add: msg_no_cluster_def)

lemma text_no_amount: "effective_text msg_no_amount = ''SKY''"
  by (simp add: effective_text_def msg_no_amount_def strip_def isspace_def)

lemma cluster_sky: "extract_cluster ''SKY'' = Some ''SKY''"
  by code_simp

lemma findall_sky: "findall ''SKY'' = []"
  by code_simp

lemma ingest_no_amount: "ingest 7 clock0 msg_no_amount db = (Inr FilteredNoAmount, db)"
  by (simp add: ingest_def ingest_fields_def text_no_amount cluster_sky findall_sky)
    (simp add: msg_no_amount_def)

lemma text_zero: "effective_text msg_zero = ''SKY 0''"
  by (simp add: effective_text_def msg_zero_def strip_def isspace_def)

lemma cluster_sky_0: "extract_cluster ''SKY 0'' = Some ''SKY''"
  by code_simp

lemma findall_sky_0: "findall ''SKY 0'' = ['' 0'']"
  by code_simp

lemma norm_0: "norm_amount '' 0'' = Inr 0"
  by (simp add: decimal_eval)

lemma ingest_zero: "ingest 7 clock0 msg_zero db = (Inr FilteredNonPositive, db)"
  by (simp add: ingest_def ingest_fields_def text_zero cluster_sky_0 findall_sky_0 norm_0
      max_default_def) (simp add: msg_zero_def)

text \<open>
  C8. A call of \<open>ingest\<close> that ends at one of the five filters (wrong origin, empty text,
  no cluster label, no match of the amount pattern, amount not positive) leaves the table
  exactly as it was. Each filter is a \<open>return\<close> that comes before the only place where
  the handler touches the database.
\<close>

theorem filtered_calls_leave_table:
  assumes "fst (ingest src now msg db) = Inr out"
    and "out \<in> {FilteredOrigin, FilteredEmpty, FilteredNoCluster, FilteredNoAmount,
                 FilteredNonPositive}"
  shows "snd (ingest src now msg db) = db"
  by (rule ingest_db_unchanged)

theorem filtered_calls_leave_table_witness:
  "ingest 7 clock0 msg_other_chat db_one_row = (Inr FilteredOrigin, db_one_row)
   \<and> ingest 7 clock0 msg_blank db_one_row = (Inr FilteredEmpty, db_one_row)
   \<and> ingest 7 clock0 msg_no_cluster db_one_row = (Inr FilteredNoCluster, db_one_row)
   \<and> ingest 7 clock0 msg_no_amount db_one_row = (Inr FilteredNoAmount, db_one_row)
   \<and> ingest 7 clock0 msg_zero db_one_row = (Inr FilteredNonPositive, db_one_row)"
proof -
  have f1: "fst (ingest 7 clock0 msg_other_chat db_one_row) = Inr FilteredOrigin"
    by (simp add: ingest_other_chat)
  have f2: "fst (ingest 7 clock0 msg_blank db_one_row) = Inr FilteredEmpty"
    by (simp add: ingest_blank)
  have f3: "fst (ingest 7 clock0 msg_no_cluster db_one_row) = Inr FilteredNoCluster"
    by (simp add: ingest_no_cluster)
  have f4: "fst (ingest 7 clock0 msg_no_amount db_one_row) = Inr FilteredNoAmount"
    by (simp add: ingest_no_amount)
  have f5: "fst (ingest 7 clock0 msg_zero db_one_row) = Inr FilteredNonPositive"
    by (simp add: ingest_zero)
  have s1: "snd (ingest 7 clock0 msg_other_chat db_one_row) = db_one_row"
    by (rule filtered_calls_leave_table [OF f1]) simp
  have s2: "snd (ingest 7 clock0 msg_blank db_one_row) = db_one_row"
    by (rule filtered_calls_leave_table [OF f2]) simp
  have s3: "snd (ingest 7 clock0 msg_no_cluster db_one_row) = db_one_row"
    by (rule filtered_calls_leave_table [OF f3]) simp
  have s4: "snd (ingest 7 clock0 msg_no_amount db_one_row) = db_one_row"
    by (rule filtered_calls_leave_table [OF f4]) simp
  have s5: "snd (ingest 7 clock0 msg_zero db_one_row) = db_one_row"
    by (rule filtered_calls_leave_table [OF f5]) simp
  show ?thesis
    using f1 f2 f3 f4 f5 s1 s2 s3 s4 s5 by (simp add: prod_eq_iff)
qed





section \<open>Facts about binary64 rounding\<close>

lemma bitlen_pos: "0 < n \<Longrightarrow> 1 \<le> bitlen n"
  using bitlen_eq_zero_iff [of n] bitlen_nonneg [of n] by linarith

lemma ilog2_lower:
  assumes "0 < q"
  shows "power_int 2 (ilog2 q) \<le> q"
proof (cases "1 \<le> q")
  case True
  define n where "n = \<lfloor>q\<rfloor>"
  have n: "1 \<le> n" using True by (simp add: n_def le_floor_iff)
  then have b: "1 \<le> bitlen n" by (simp add: bitlen_pos)
  have "2 ^ nat (bitlen n - 1) \<le> n" using bitlen_bounds [of n] n by simp
  then have "(of_int (2 ^ nat (bitlen n - 1)) :: rat) \<le> of_int n" by (simp only: of_int_le_iff)
  also have "\<dots> \<le> q" by (simp add: n_def)
  finally have "(2 :: rat) ^ nat (bitlen n - 1) \<le> q" by simp
  moreover have "ilog2 q = bitlen n - 1" using True by (simp add: ilog2_def n_def)
  ultimately show ?thesis using b by (simp add: power_int_def)
next
  case False
  define r where "r = 1 / q"
  define m where "m = \<lceil>r\<rceil> - 1"
  have r: "1 < r" using False assms by (simp add: r_def)
  then have m: "1 \<le> m" by (simp add: m_def less_ceiling_iff)
  then have k: "1 \<le> bitlen m" by (simp add: bitlen_pos)
  have "m < 2 ^ nat (bitlen m)" using bitlen_bounds [of m] m by simp
  then have "m + 1 \<le> 2 ^ nat (bitlen m)" by simp
  then have "(of_int (m + 1) :: rat) \<le> of_int (2 ^ nat (bitlen m))" by (simp only: of_int_le_iff)
  then have "(of_int \<lceil>r\<rceil> :: rat) \<le> 2 ^ nat (bitlen m)" by (simp add: m_def)
  moreover have "r \<le> of_int \<lceil>r\<rceil>" by simp
  ultimately have "r \<le> 2 ^ nat (bitlen m)" by linarith
  then have "1 / 2 ^ nat (bitlen m) \<le> q"
    using assms by (simp add: r_def field_simps)
  moreover have "ilog2 q = - bitlen m" using False by (simp add: ilog2_def m_def r_def)
  ultimately show ?thesis using k by (simp add: power_int_def field_simps)
qed

lemma ilog2_upper:
  assumes "0 < q"
  shows "q < power_int 2 (ilog2 q + 1)"
proof (cases "1 \<le> q")
  case True
  define n where "n = \<lfloor>q\<rfloor>"
  have n: "1 \<le> n" using True by (simp add: n_def le_floor_iff)
  then have b: "1 \<le> bitlen n" by (simp add: bitlen_pos)
  have "n < 2 ^ nat (bitlen n)" using bitlen_bounds [of n] n by simp
  then have "n + 1 \<le> 2 ^ nat (bitlen n)" by simp
  then have "(of_int (n + 1) :: rat) \<le> of_int (2 ^ nat (bitlen n))" by (simp only: of_int_le_iff)
  then have "(of_int (n + 1) :: rat) \<le> 2 ^ nat (bitlen n)" by simp
  moreover have "q < of_int (n + 1)" unfolding n_def by linarith
  ultimately have "q < 2 ^ nat (bitlen n)" by linarith
  moreover have "ilog2 q + 1 = bitlen n" using True by (simp add: ilog2_def n_def)
  ultimately show ?thesis using b by (simp add: power_int_def)
next
  case False
  define r where "r = 1 / q"
  define m where "m = \<lceil>r\<rceil> - 1"
  have r: "1 < r" using False assms by (simp add: r_def)
  then have m: "1 \<le> m" by (simp add: m_def less_ceiling_iff)
  then have k: "1 \<le> bitlen m" by (simp add: bitlen_pos)
  have "2 ^ nat (bitlen m - 1) \<le> m" using bitlen_bounds [of m] m by simp
  then have "(of_int (2 ^ nat (bitlen m - 1)) :: rat) \<le> of_int m" by (simp only: of_int_le_iff)
  then have "(2 :: rat) ^ nat (bitlen m - 1) \<le> of_int m" by simp
  moreover have "of_int m < r" unfolding m_def by linarith
  ultimately have "2 ^ nat (bitlen m - 1) < r" by linarith
  then have "q < 1 / 2 ^ nat (bitlen m - 1)"
    using assms by (simp add: r_def field_simps)
  moreover have "ilog2 q + 1 = - (bitlen m - 1)" using False by (simp add: ilog2_def m_def r_def)
  moreover have "power_int (2::rat) (- (bitlen m - 1)) = 1 / 2 ^ nat (bitlen m - 1)"
    using k by (simp only: power_int_minus_divide) (simp add: power_int_nonneg_exp)
  ultimately show ?thesis by simp
qed

lemma ilog2_unique:
  assumes "0 < q" and lo: "power_int 2 e \<le> q" and hi: "q < power_int 2 (e + 1)"
  shows "ilog2 q = e"
proof -
  have "power_int (2::rat) (ilog2 q) < power_int 2 (e + 1)"
    using ilog2_lower [OF assms(1)] hi by linarith
  then have a: "ilog2 q < e + 1"
    by (metis linorder_not_less one_less_numeral_iff power_int_increasing semiring_norm(76) less_imp_le)
  have "power_int (2::rat) e < power_int 2 (ilog2 q + 1)"
    using ilog2_upper [OF assms(1)] lo by linarith
  then have b: "e < ilog2 q + 1"
    by (metis linorder_not_less one_less_numeral_iff power_int_increasing semiring_norm(76) less_imp_le)
  from a b show ?thesis by linarith
qed

lemma round_half_even_of_int: "round_half_even (of_int k) = k"
  by (simp add: round_half_even_def)

lemma round_half_even_near:
  assumes "of_int m - 1 / 2 < x" and "x < of_int m + 1 / 2"
  shows "round_half_even x = m"
proof (cases "of_int m \<le> x")
  case True
  then have f: "\<lfloor>x\<rfloor> = m" using assms by (simp add: floor_unique)
  then show ?thesis using assms by (simp add: round_half_even_def)
next
  case False
  then have f: "\<lfloor>x\<rfloor> = m - 1" using assms by (intro floor_unique) simp_all
  then show ?thesis using assms False by (simp add: round_half_even_def)
qed

lemma round_half_even_tie:
  assumes "x = of_int m + 1 / 2"
  shows "round_half_even x = (if even m then m else m + 1)"
proof -
  have f: "\<lfloor>x\<rfloor> = m" using assms by (intro floor_unique) simp_all
  then show ?thesis using assms by (simp add: round_half_even_def)
qed

lemma round_pos_eval:
  assumes "0 < q" and "power_int 2 e \<le> q" and "q < power_int 2 (e + 1)"
    and "p = max (e - 52) (- 1074)"
    and "round_half_even (q / power_int 2 p) = m"
    and "(of_int m :: rat) * power_int 2 p < 2 ^ 1024"
  shows "round_pos q = Fin (of_int m * power_int 2 p)"
proof -
  have "ilog2 q = e" using assms(1-3) by (rule ilog2_unique)
  then show ?thesis using assms(4-6) by (simp add: round_pos_def Let_def)
qed

lemma ilog2_less:
  assumes "0 < q" and "q < 2 ^ n"
  shows "ilog2 q < int n"
proof -
  have "power_int (2::rat) (ilog2 q) < power_int 2 (int n)"
    using ilog2_lower [OF assms(1)] assms(2) by simp
  then show ?thesis
    by (metis linorder_not_less one_less_numeral_iff power_int_increasing semiring_norm(76)
        less_imp_le)
qed

lemma to_double_of_nat:
  assumes "n < 2 ^ 53"
  shows "to_double (of_nat n) = Fin (of_nat n)"
proof (cases "n = 0")
  case True
  then show ?thesis by (simp add: to_double_def)
next
  case False
  define q :: rat where "q = of_nat n"
  define p where "p = max (ilog2 q - 52) (- 1074)"
  have q: "0 < q" using False by (simp add: q_def)
  have "q < 2 ^ 53" using assms unfolding q_def
    by (metis of_nat_less_iff of_nat_numeral of_nat_power)
  with q have "ilog2 q < 53" using ilog2_less [of q 53] by simp
  then have p: "p \<le> 0" by (simp add: p_def)
  then have pw: "power_int (2::rat) p = 1 / 2 ^ nat (- p)"
    by (simp add: power_int_def field_simps)
  have "q / power_int 2 p = of_int (int n * 2 ^ nat (- p))"
    by (simp add: pw q_def)
  then have "round_half_even (q / power_int 2 p) = int n * 2 ^ nat (- p)"
    by (simp only: round_half_even_of_int)
  moreover have "of_int (int n * 2 ^ nat (- p)) * power_int (2::rat) p = q"
    by (simp add: pw q_def)
  moreover have "q < 2 ^ 1024"
  proof -
    have "(2::rat) ^ 53 \<le> 2 ^ 1024" by (rule power_increasing) simp_all
    with \<open>q < 2 ^ 53\<close> show ?thesis by linarith
  qed
  ultimately have "round_pos q = Fin q"
    by (simp add: round_pos_def Let_def p_def [symmetric] not_le)
  then show ?thesis using q by (simp add: to_double_def q_def)
qed

lemma fadd_of_nat:
  assumes "a + b < 2 ^ 53"
  shows "fadd (Fin (of_nat a)) (Fin (of_nat b)) = Some (Fin (of_nat (a + b)))"
  using to_double_of_nat [OF assms] by (simp add: fadd_def)

lemma round_half_away_of_nat: "round_half_away (of_nat k) = int k"
proof -
  have "\<lfloor>(of_nat k :: rat) + 1 / 2\<rfloor> = int k" by (intro floor_unique) simp_all
  then show ?thesis by (simp add: round_half_away_def)
qed

lemma sql_round2_of_nat:
  assumes "n < 2 ^ 53"
  shows "sql_round2 (Some (Fin (of_nat n))) = Some (Fin (of_nat n))"
proof -
  have "(of_nat n :: rat) * 100 = of_nat (n * 100)" by simp
  then have "round_half_away (of_nat n * 100) = int (n * 100)"
    by (simp only: round_half_away_of_nat)
  then show ?thesis using to_double_of_nat [OF assms] by (simp add: sql_round2_def)
qed

lemma fold_fadd_of_nat:
  assumes "a + sum_list ns < 2 ^ 53"
  shows "fold (\<lambda>x acc. case acc of None \<Rightarrow> None | Some s \<Rightarrow> fadd s x)
           (map (\<lambda>k. Fin (of_nat k)) ns) (Some (Fin (of_nat a)))
         = Some (Fin (of_nat (a + sum_list ns)))"
  using assms
proof (induction ns arbitrary: a)
  case Nil
  then show ?case by simp
next
  case (Cons k ns)
  have "a + k < 2 ^ 53" using Cons.prems by simp
  then have step: "fadd (Fin (of_nat a)) (Fin (of_nat k)) = Some (Fin (of_nat (a + k)))"
    by (rule fadd_of_nat)
  have "(a + k) + sum_list ns < 2 ^ 53" using Cons.prems by (simp add: add.assoc)
  from Cons.IH [OF this] step show ?case by (simp add: add.assoc)
qed

lemma sql_sum_of_nat:
  assumes "ns \<noteq> []" and "sum_list ns < 2 ^ 53"
  shows "sql_sum (map (\<lambda>k. Fin (of_nat k)) ns) = Some (Fin (of_nat (sum_list ns)))"
  using fold_fadd_of_nat [of 0 ns] assms by (simp add: sql_sum_def)

section \<open>Evaluation of the queries\<close>

lemma to_double_100: "to_double 100 = Fin 100"
  using to_double_of_nat [of 100] by simp

lemma to_double_1_256: "to_double (1 / 256) = Fin (1 / 256)"
proof -
  have "round_pos (1 / 256) = Fin (of_int 4503599627370496 * power_int 2 (- 60))"
    by (rule round_pos_eval [where e = "- 8"]) (simp_all add: round_half_even_def)
  then show ?thesis by (simp add: to_double_def)
qed

lemma to_double_1_128: "to_double (1 / 128) = Fin (1 / 128)"
proof -
  have "round_pos (1 / 128) = Fin (of_int 4503599627370496 * power_int 2 (- 59))"
    by (rule round_pos_eval [where e = "- 7"]) (simp_all add: round_half_even_def)
  then show ?thesis by (simp add: to_double_def)
qed

lemma to_double_1_100:
  "to_double (1 / 100) = Fin (5764607523034235 / 576460752303423488)"
proof -
  have "round_half_even (1 / 100 / power_int 2 (- 59)) = 5764607523034235"
    by (rule round_half_even_near) simp_all
  then have "round_pos (1 / 100) = Fin (of_int 5764607523034235 * power_int 2 (- 59))"
    by (intro round_pos_eval [where e = "- 7"]) simp_all
  then show ?thesis by (simp add: to_double_def)
qed

lemma to_double_2_53: "to_double 9007199254740992 = Fin 9007199254740992"
proof -
  have "round_pos 9007199254740992 = Fin (of_int 4503599627370496 * power_int 2 1)"
    by (rule round_pos_eval [where e = 53]) (simp_all add: round_half_even_def)
  then show ?thesis by (simp add: to_double_def)
qed

lemma to_double_2_53_plus_1: "to_double 9007199254740993 = Fin 9007199254740992"
proof -
  have "round_half_even (9007199254740993 / power_int 2 1) = 4503599627370496"
    using round_half_even_tie [of "9007199254740993 / 2" 4503599627370496] by simp
  then have "round_pos 9007199254740993 = Fin (of_int 4503599627370496 * power_int 2 1)"
    by (intro round_pos_eval [where e = 53]) simp_all
  then show ?thesis by (simp add: to_double_def)
qed

lemma round_half_away_eval:
  assumes "0 \<le> x" and "of_int m \<le> x + 1 / 2" and "x + 1 / 2 < of_int m + 1"
  shows "round_half_away x = m"
proof -
  have "\<lfloor>x + 1 / 2\<rfloor> = m" using assms(2,3) by (intro floor_unique) simp_all
  then show ?thesis using assms(1) by (simp add: round_half_away_def)
qed

lemma fadd_zero: "fadd (Fin 0) (Fin q) = Some (to_double q)"
  by (simp add: fadd_def)

lemma sql_sum_single: "sql_sum [Fin q] = Some (to_double q)"
  by (simp add: sql_sum_def fadd_zero)

lemma groups_small_parts:
  "cluster_groups db_small_parts ''2024-03-09'' =
     [\<lparr>s_cluster = ''SKY'', s_total = Some (Fin 0), s_n = 1\<rparr>,
      \<lparr>s_cluster = ''ALX'', s_total = Some (Fin 0), s_n = 1\<rparr>]"
proof -
  have "round_half_away (1 / 256 * 100) = 0"
    by (rule round_half_away_eval) simp_all
  then have r: "sql_round2 (Some (Fin (1 / 256))) = Some (Fin 0)"
    by (simp add: sql_round2_def to_double_def)
  show ?thesis
    by (simp add: cluster_groups_def day_rows_def db_small_parts_def sql_sum_single
        to_double_1_256 r)
qed

lemma total_small_parts:
  "summarize_day_total db_small_parts ''2024-03-09'' = Fin (5764607523034235 / 576460752303423488)"
proof -
  have s: "sql_sum [Fin (1 / 256), Fin (1 / 256)] = Some (Fin (1 / 128))"
    using to_double_1_128 by (simp add: sql_sum_def fadd_zero to_double_1_256 fadd_def)
  have "round_half_away (1 / 128 * 100) = 1"
    by (rule round_half_away_eval) simp_all
  then have r: "sql_round2 (Some (Fin (1 / 128))) =
      Some (Fin (5764607523034235 / 576460752303423488))"
    using to_double_1_100 by (simp add: sql_round2_def)
  show ?thesis
    by (simp add: summarize_day_total_def day_rows_def db_small_parts_def s r)
qed

lemma total_large:
  "summarize_day_total db_large ''2024-03-09'' = Fin 9007199254740992"
proof -
  have s: "sql_sum [Fin 9007199254740992, Fin 1] = Some (Fin 9007199254740992)"
    using to_double_2_53_plus_1 by (simp add: sql_sum_def fadd_zero to_double_2_53 fadd_def)
  have "round_half_away (of_nat 900719925474099200) = int 900719925474099200"
    by (rule round_half_away_of_nat)
  then have "round_half_away (9007199254740992 * 100) = 900719925474099200" by simp
  then have r: "sql_round2 (Some (Fin 9007199254740992)) = Some (Fin 9007199254740992)"
    using to_double_2_53 by (simp add: sql_round2_def)
  show ?thesis
    by (simp add: summarize_day_total_def day_rows_def db_large_def s r)
qed

lemma sql_round2_100: "sql_round2 (Some (Fin 100)) = Some (Fin 100)"
  using sql_round2_of_nat [of 100] by simp

lemma groups_tie:
  "cluster_groups db_tie ''2024-03-09'' =
     [\<lparr>s_cluster = ''TEXAS'', s_total = Some (Fin 100), s_n = 1\<rparr>,
      \<lparr>s_cluster = ''ALX'', s_total = Some (Fin 100), s_n = 1\<rparr>]"
  by (simp add: cluster_groups_def day_rows_def db_tie_def sql_sum_single to_double_100
      sql_round2_100)

section \<open>The order of the summary rows\<close>

lemma total_ge_refl: "total_ge x x"
  by (simp add: total_ge_def split: option.splits double.splits)

lemma cluster_groups_clusters:
  "map s_cluster (cluster_groups db d) = remdups (map cluster (day_rows db d))"
  by (simp add: cluster_groups_def comp_def)

lemma cluster_groups_row:
  assumes "t \<in> set (cluster_groups db d)"
  shows "s_total t = sql_round2 (sql_sum (map amount
           (filter (\<lambda>r. cluster r = s_cluster t) (day_rows db d))))
       \<and> s_n t = length (filter (\<lambda>r. cluster r = s_cluster t) (day_rows db d))"
  using assms by (auto simp: cluster_groups_def)

text \<open>
  C7 as stated fails on a table with two clusters of equal total: the query may return
  \<open>TEXAS\<close> before \<open>ALX\<close>, which is not ascending by label.
\<close>

theorem tie_order_counterexample:
  "summarize_day_rows db_tie ''2024-03-09''
     [\<lparr>s_cluster = ''TEXAS'', s_total = Some (Fin 100), s_n = 1\<rparr>,
      \<lparr>s_cluster = ''ALX'', s_total = Some (Fin 100), s_n = 1\<rparr>]
   \<and> \<not> spec_order
     [\<lparr>s_cluster = ''TEXAS'', s_total = Some (Fin 100), s_n = 1\<rparr>,
      \<lparr>s_cluster = ''ALX'', s_total = Some (Fin 100), s_n = 1\<rparr>]"
  by (simp add: summarize_day_rows_def groups_tie total_ge_def spec_order_def)

text \<open>
  C7, amended. Every result of the first query of \<open>summarize_day\<close> lists each cluster of
  the day once, with the rounded sum and the count of its rows, sorted by total
  descending. \<open>ORDER BY total DESC\<close> is the only sort key: two neighbours with equal
  totals may also come the other way round.
\<close>

theorem summarize_day_rows_order:
  assumes "summarize_day_rows db d rows"
  shows "sorted_wrt (\<lambda>a b. total_ge (s_total a) (s_total b)) rows
    \<and> distinct (map s_cluster rows)
    \<and> set (map s_cluster rows) = cluster ` set (day_rows db d)
    \<and> (\<forall>t\<in>set rows.
          s_total t = sql_round2 (sql_sum (map amount
             (filter (\<lambda>r. cluster r = s_cluster t) (day_rows db d))))
          \<and> s_n t = length (filter (\<lambda>r. cluster r = s_cluster t) (day_rows db d)))
    \<and> (\<forall>xs a b ys. rows = xs @ [a, b] @ ys \<and> s_total a = s_total b
          \<longrightarrow> summarize_day_rows db d (xs @ [b, a] @ ys))"
proof -
  from assms have m: "mset rows = mset (cluster_groups db d)"
    and s: "sorted_wrt (\<lambda>a b. total_ge (s_total a) (s_total b)) rows"
    by (simp_all add: summarize_day_rows_def)
  from m have mm: "mset (map s_cluster rows) = mset (remdups (map cluster (day_rows db d)))"
    by (metis cluster_groups_clusters mset_map)
  then have d: "distinct (map s_cluster rows)"
    by (metis distinct_remdups mset_eq_imp_distinct_iff)
  from mm have st: "set (map s_cluster rows) = cluster ` set (day_rows db d)"
    by (metis mset_eq_setD set_map set_remdups)
  from m have "set rows = set (cluster_groups db d)" by (rule mset_eq_setD)
  then have r: "\<forall>t\<in>set rows.
          s_total t = sql_round2 (sql_sum (map amount
             (filter (\<lambda>r. cluster r = s_cluster t) (day_rows db d))))
          \<and> s_n t = length (filter (\<lambda>r. cluster r = s_cluster t) (day_rows db d))"
    using cluster_groups_row by blast
  have sw: "summarize_day_rows db d (xs @ [b, a] @ ys)"
    if "rows = xs @ [a, b] @ ys" "s_total a = s_total b" for xs a b ys
  proof -
    have "mset (xs @ [b, a] @ ys) = mset (cluster_groups db d)"
      using m that(1) by (simp add: add_mset_commute)
    moreover have "sorted_wrt (\<lambda>a b. total_ge (s_total a) (s_total b)) (xs @ [b, a] @ ys)"
      using s that by (auto simp: sorted_wrt_append total_ge_refl)
    ultimately show ?thesis by (simp add: summarize_day_rows_def)
  qed
  from s d st r sw show ?thesis by blast
qed

theorem summarize_day_rows_order_witness:
  "summarize_day_rows db_tie ''2024-03-09''
     [\<lparr>s_cluster = ''TEXAS'', s_total = Some (Fin 100), s_n = 1\<rparr>,
      \<lparr>s_cluster = ''ALX'', s_total = Some (Fin 100), s_n = 1\<rparr>]
   \<and> summarize_day_rows db_tie ''2024-03-09''
     [\<lparr>s_cluster = ''ALX'', s_total = Some (Fin 100), s_n = 1\<rparr>,
      \<lparr>s_cluster = ''TEXAS'', s_total = Some (Fin 100), s_n = 1\<rparr>]"
proof -
  let ?T = "\<lparr>s_cluster = ''TEXAS'', s_total = Some (Fin 100), s_n = 1\<rparr>"
  let ?A = "\<lparr>s_cluster = ''ALX'', s_total = Some (Fin 100), s_n = 1\<rparr>"
  have a: "summarize_day_rows db_tie ''2024-03-09'' [?T, ?A]"
    by (simp add: summarize_day_rows_def groups_tie total_ge_def)
  have "[?T, ?A] = [] @ [?T, ?A] @ [] \<and> s_total ?T = s_total ?A" by simp
  with summarize_day_rows_order [OF a]
  have "summarize_day_rows db_tie ''2024-03-09'' ([] @ [?A, ?T] @ [])" by blast
  with a show ?thesis by simp
qed

section \<open>Totals of whole-number amounts\<close>

lemma sum_list_delta:
  fixes v :: nat
  assumes "distinct cs" and "a \<in> set cs"
  shows "sum_list (map (\<lambda>c. if a = c then v else 0) cs) = v"
  using assms by (induction cs) (auto simp: sum_list_0)

lemma sum_list_by_key:
  fixes w :: "'a \<Rightarrow> nat"
  assumes "distinct cs" and "g ` set xs \<subseteq> set cs"
  shows "sum_list (map (\<lambda>c. sum_list (map w (filter (\<lambda>r. g r = c) xs))) cs)
         = sum_list (map w xs)"
  using assms(2)
proof (induction xs)
  case Nil
  then show ?case by simp
next
  case (Cons x xs)
  have "sum_list (map (\<lambda>c. sum_list (map w (filter (\<lambda>r. g r = c) (x # xs)))) cs)
      = sum_list (map (\<lambda>c. (if g x = c then w x else 0)
                            + sum_list (map w (filter (\<lambda>r. g r = c) xs))) cs)"
    by (intro arg_cong [where f = sum_list] map_cong) auto
  also have "\<dots> = sum_list (map (\<lambda>c. if g x = c then w x else 0) cs)
      + sum_list (map (\<lambda>c. sum_list (map w (filter (\<lambda>r. g r = c) xs))) cs)"
    by (simp add: sum_list_addf)
  also have "\<dots> = w x + sum_list (map w xs)"
    using Cons assms(1) by (simp add: sum_list_delta)
  finally show ?case by simp
qed

lemma sql_total_of_nat:
  assumes "\<forall>r\<in>set xs. amount r = Fin (of_nat (w r))"
    and "xs \<noteq> []" and "sum_list (map w xs) < 2 ^ 53"
  shows "sql_round2 (sql_sum (map amount xs)) = Some (Fin (of_nat (sum_list (map w xs))))"
proof -
  have eq: "map amount xs = map (\<lambda>k. Fin (of_nat k)) (map w xs)"
    using assms(1) by simp
  have "sql_sum (map (\<lambda>k. Fin (of_nat k)) (map w xs))
        = Some (Fin (of_nat (sum_list (map w xs))))"
    by (rule sql_sum_of_nat) (use assms(2,3) in simp_all)
  then have "sql_sum (map amount xs) = Some (Fin (of_nat (sum_list (map w xs))))"
    by (simp only: eq)
  then show ?thesis using sql_round2_of_nat [OF assms(3)] by simp
qed

lemma summarize_day_total_of_nat:
  assumes "\<forall>r\<in>set (day_rows db d). amount r = Fin (of_nat (w r))"
    and "sum_list (map w (day_rows db d)) < 2 ^ 53"
  shows "summarize_day_total db d = Fin (of_nat (sum_list (map w (day_rows db d))))"
proof (cases "day_rows db d = []")
  case True
  then show ?thesis by (simp add: summarize_day_total_def sql_sum_def sql_round2_def)
next
  case False
  from sql_total_of_nat [OF assms(1) False assms(2)] show ?thesis
    by (simp add: summarize_day_total_def)
qed

lemma group_total_of_nat:
  assumes whole: "\<forall>r\<in>set (day_rows db d). amount r = Fin (of_nat (w r))"
    and bound: "sum_list (map w (day_rows db d)) < 2 ^ 53"
    and t: "t \<in> set (cluster_groups db d)"
  shows "s_total t = Some (Fin (of_nat (sum_list (map w
           (filter (\<lambda>r. cluster r = s_cluster t) (day_rows db d))))))"
proof -
  let ?g = "filter (\<lambda>r. cluster r = s_cluster t) (day_rows db d)"
  from t have "s_cluster t \<in> set (map s_cluster (cluster_groups db d))" by simp
  then have "s_cluster t \<in> cluster ` set (day_rows db d)"
    by (simp add: cluster_groups_clusters)
  then have ne: "?g \<noteq> []" by (auto simp: filter_empty_conv)
  have "sum_list (map w ?g) \<le> sum_list (map w (day_rows db d))"
    by (rule sum_list_filter_le_nat)
  with bound have b: "sum_list (map w ?g) < 2 ^ 53" by linarith
  have "\<forall>r\<in>set ?g. amount r = Fin (of_nat (w r))" using whole by simp
  from sql_total_of_nat [OF this ne b] cluster_groups_row [OF t] show ?thesis by simp
qed

lemma group_sums_add_up:
  assumes "mset rows = mset (cluster_groups db d)"
  shows "sum_list (map (\<lambda>t. sum_list (map w
           (filter (\<lambda>r. cluster r = s_cluster t) (day_rows db d)))) rows)
         = sum_list (map (w :: spend_row \<Rightarrow> nat) (day_rows db d))"
proof -
  define f where "f = (\<lambda>c. sum_list (map w (filter (\<lambda>r. cluster r = c) (day_rows db d))))"
  define h :: "summary_row \<Rightarrow> nat" where "h = (\<lambda>t. f (s_cluster t))"
  have "mset (map h rows) = mset (map h (cluster_groups db d))"
    by (simp add: assms)
  then have "sum_mset (mset (map h rows)) = sum_mset (mset (map h (cluster_groups db d)))"
    by (rule arg_cong)
  then have "sum_list (map h rows) = sum_list (map h (cluster_groups db d))"
    by (simp only: sum_mset_sum_list)
  also have "\<dots> = sum_list (map f (map s_cluster (cluster_groups db d)))"
    by (simp add: comp_def h_def)
  also have "\<dots> = sum_list (map f (remdups (map cluster (day_rows db d))))"
    by (simp only: cluster_groups_clusters)
  also have "\<dots> = sum_list (map w (day_rows db d))"
    unfolding f_def by (rule sum_list_by_key) simp_all
  finally show ?thesis by (simp add: h_def f_def)
qed

lemma groups_three:
  "cluster_groups db_three ''2024-03-09'' =
     [\<lparr>s_cluster = ''SKY'', s_total = Some (Fin 800), s_n = 2\<rparr>,
      \<lparr>s_cluster = ''ALX'', s_total = Some (Fin 100), s_n = 1\<rparr>]"
proof -
  have "sql_sum (map (\<lambda>k. Fin (of_nat k)) [500, 300]) = Some (Fin (of_nat (sum_list [500, 300])))"
    by (rule sql_sum_of_nat) simp_all
  then have s: "sql_sum [Fin 500, Fin 300] = Some (Fin 800)" by simp
  have r: "sql_round2 (Some (Fin 800)) = Some (Fin 800)"
    using sql_round2_of_nat [of 800] by simp
  show ?thesis
    by (simp add: cluster_groups_def day_rows_def db_three_def s r sql_sum_single
        to_double_100 sql_round2_100)
qed

lemma whole_three:
  "\<forall>r\<in>set (day_rows db_three ''2024-03-09''). amount r = Fin (of_nat (whole_of r))"
  by (simp add: day_rows_def db_three_def whole_of_def)

lemma bound_three: "sum_list (map whole_of (day_rows db_three ''2024-03-09'')) < 2 ^ 53"
  by (simp add: day_rows_def db_three_def whole_of_def)

text \<open>
  C5 as stated fails: with \<open>0.00390625\<close> in each of two clusters, both cluster totals
  are \<open>ROUND(0.00390625, 2) = 0.0\<close>, and the total of the day is
  \<open>ROUND(0.0078125, 2)\<close>, the binary64 number nearest to \<open>0.01\<close>.
\<close>

theorem cluster_totals_counterexample:
  "summarize_day_rows db_small_parts ''2024-03-09''
     [\<lparr>s_cluster = ''SKY'', s_total = Some (Fin 0), s_n = 1\<rparr>,
      \<lparr>s_cluster = ''ALX'', s_total = Some (Fin 0), s_n = 1\<rparr>]
   \<and> summarize_day_total db_small_parts ''2024-03-09''
       = Fin (5764607523034235 / 576460752303423488)
   \<and> (0 :: rat) + 0 \<noteq> 5764607523034235 / 576460752303423488"
  by (simp add: summarize_day_rows_def groups_small_parts total_small_parts total_ge_def)

text \<open>
  C5, amended. Each total of the first query is \<open>ROUND(SUM(amount), 2)\<close> over the rows of
  one cluster, and the total of the day is \<open>ROUND(SUM(amount), 2)\<close> over all rows of the
  day, each rounded on its own. When the amounts of the day are whole numbers whose sum is
  below \<open>2^53\<close>, the cluster totals are whole numbers \<open>ts\<close> and the total of the day is
  exactly their sum.
\<close>

theorem whole_cluster_totals_add_up:
  assumes "summarize_day_rows db d rows"
    and "\<forall>r\<in>set (day_rows db d). amount r = Fin (of_nat (w r))"
    and "sum_list (map w (day_rows db d)) < 2 ^ 53"
  shows "\<exists>ts. map s_total rows = map (\<lambda>k. Some (Fin (of_nat k))) ts
    \<and> summarize_day_total db d = Fin (of_nat (sum_list ts))"
proof -
  define g :: "summary_row \<Rightarrow> nat" where
    "g = (\<lambda>t. sum_list (map w (filter (\<lambda>r. cluster r = s_cluster t) (day_rows db d))))"
  from assms(1) have m: "mset rows = mset (cluster_groups db d)"
    by (simp add: summarize_day_rows_def)
  then have "set rows = set (cluster_groups db d)" by (rule mset_eq_setD)
  then have "\<forall>t\<in>set rows. s_total t = Some (Fin (of_nat (g t)))"
    using group_total_of_nat [OF assms(2,3)] by (simp add: g_def)
  then have a: "map s_total rows = map (\<lambda>k. Some (Fin (of_nat k))) (map g rows)"
    by simp
  have "sum_list (map g rows) = sum_list (map w (day_rows db d))"
    unfolding g_def using m by (rule group_sums_add_up)
  then have b: "summarize_day_total db d = Fin (of_nat (sum_list (map g rows)))"
    using summarize_day_total_of_nat [OF assms(2,3)] by simp
  from a b show ?thesis by blast
qed

theorem whole_cluster_totals_add_up_witness:
  "summarize_day_rows db_three ''2024-03-09''
     [\<lparr>s_cluster = ''SKY'', s_total = Some (Fin 800), s_n = 2\<rparr>,
      \<lparr>s_cluster = ''ALX'', s_total = Some (Fin 100), s_n = 1\<rparr>]
   \<and> summarize_day_total db_three ''2024-03-09'' = Fin 900"
proof -
  let ?rows = "[\<lparr>s_cluster = ''SKY'', s_total = Some (Fin 800), s_n = 2\<rparr>,
      \<lparr>s_cluster = ''ALX'', s_total = Some (Fin 100), s_n = 1\<rparr>]"
  have a: "summarize_day_rows db_three ''2024-03-09'' ?rows"
    by (simp add: summarize_day_rows_def groups_three total_ge_def)
  from whole_cluster_totals_add_up [OF a whole_three bound_three]
  obtain ts where ts: "map s_total ?rows = map (\<lambda>k. Some (Fin (of_nat k))) ts"
    and t: "summarize_day_total db_three ''2024-03-09'' = Fin (of_nat (sum_list ts))"
    by blast
  from ts have "ts = [800, 100]" by (auto simp: Cons_eq_map_conv)
  with t have "summarize_day_total db_three ''2024-03-09'' = Fin 900" by simp
  with a show ?thesis by simp
qed

text \<open>
  C6 as stated fails: amounts are \<open>REAL\<close>, binary64 numbers. With the amounts
  \<open>9007199254740992\<close> and \<open>1\<close> on one day, both held exactly, the reported total is
  \<open>9007199254740992\<close>: the sum \<open>9007199254740993\<close> is not a binary64 number.
\<close>

theorem binary_total_counterexample:
  "map amount (day_rows db_large ''2024-03-09'') = [Fin 9007199254740992, Fin 1]
   \<and> summarize_day_total db_large ''2024-03-09'' = Fin 9007199254740992
   \<and> (9007199254740992 :: rat) + 1 \<noteq> 9007199254740992"
  by (simp add: total_large) (simp add: day_rows_def db_large_def)

text \<open>
  C6, amended. Amounts are held and added as binary64 numbers, rounded to nearest. A
  whole-number amount below \<open>2^53\<close> is held exactly, and for a day whose amounts are whole
  numbers with sum below \<open>2^53\<close> the reported total is the exact sum of the amounts, not
  a sum of rounded values.
\<close>

theorem whole_amounts_exact:
  "(n < 2 ^ 53 \<longrightarrow> to_double (of_nat n) = Fin (of_nat n))
   \<and> ((\<forall>r\<in>set (day_rows db d). amount r = Fin (of_nat (w r)))
        \<and> sum_list (map w (day_rows db d)) < 2 ^ 53
      \<longrightarrow> summarize_day_total db d = Fin (of_nat (sum_list (map w (day_rows db d)))))"
  using to_double_of_nat summarize_day_total_of_nat by blast

theorem whole_amounts_exact_witness:
  "(500 :: nat) < 2 ^ 53 \<and> to_double 500 = Fin 500
   \<and> map amount (day_rows db_three ''2024-03-09'') = [Fin 500, Fin 300, Fin 100]
   \<and> sum_list (map whole_of (day_rows db_three ''2024-03-09'')) = 900
   \<and> summarize_day_total db_three ''2024-03-09'' = Fin 900"
proof -
  have s: "sum_list (map whole_of (day_rows db_three ''2024-03-09'')) = 900"
    by (simp add: day_rows_def db_three_def whole_of_def)
  have n: "(500 :: nat) < 2 ^ 53" by simp
  from whole_amounts_exact [of 500 db_three "''2024-03-09''" whole_of] n whole_three bound_three
  have "to_double (of_nat 500) = Fin (of_nat 500)"
    and "summarize_day_total db_three ''2024-03-09''
         = Fin (of_nat (sum_list (map whole_of (day_rows db_three ''2024-03-09''))))"
    by blast+
  moreover have "map amount (day_rows db_three ''2024-03-09'') = [Fin 500, Fin 300, Fin 100]"
    by (simp add: day_rows_def db_three_def)
  ultimately show ?thesis using s n by simp
qed

end
